theory Spec2Isabelle
  imports Main "HOL-Library.AList"
begin

section \<open>The in-memory server API of \<^verbatim>\<open>logger/utils/server_api.py\<close>\<close>

text \<open>
  The class \<^verbatim>\<open>InMemoryServerAPI\<close> keeps five attributes (\<^verbatim>\<open>cruise_configs\<close>,
  \<^verbatim>\<open>mode\<close>, \<^verbatim>\<open>logger_config\<close>, \<^verbatim>\<open>callbacks\<close>, \<^verbatim>\<open>status\<close>) and mutates them in
  place. The model passes the state explicitly. A Python dict is an association list in
  insertion order: \<open>map_of\<close> is \<^verbatim>\<open>d.get(k)\<close>, \<open>AList.update\<close> is \<^verbatim>\<open>d[k] = v\<close> (an
  existing key keeps its position, a new key goes to the end) and \<open>AList.delete\<close> is
  \<^verbatim>\<open>del d[k]\<close>.

  The dicts \<^verbatim>\<open>{logger: config name}\<close> are the one kind of object that the code both
  shares and mutates: a mode of a cruise definition holds one, \<^verbatim>\<open>logger_config[cruise_id]\<close>
  holds one, and \<^verbatim>\<open>set_logger_config\<close> assigns into the latter in place. They live in an
  explicit heap and are referred to by address, so that \<^verbatim>\<open>modes[mode].copy()\<close> is an
  allocation and sharing is expressible.
\<close>

subsection \<open>Data\<close>

type_synonym addr = nat

text \<open>A dict \<^verbatim>\<open>{logger: config name}\<close>.\<close>
type_synonym assignment = "(string \<times> string) list"

text \<open>A configuration specification: a dict the store never looks into, except for its
  truth value.\<close>
type_synonym config_spec = "(string \<times> string) list"

text \<open>A logger specification \<^verbatim>\<open>{"host": ..., "configs": [...]}\<close>; both keys may be absent.\<close>
record logger_spec =
  host :: "string option"
  valid_configs :: "string list option"

text \<open>A cruise definition: the keys \<^verbatim>\<open>cruise\<close>, \<^verbatim>\<open>loggers\<close>, \<^verbatim>\<open>modes\<close>,
  \<^verbatim>\<open>default_mode\<close>, \<^verbatim>\<open>configs\<close>, each present or absent. Each mode maps to the address
  of its \<^verbatim>\<open>{logger: config name}\<close> dict.\<close>
record cruise_config =
  cruise :: "(string \<times> string) list option"
  loggers :: "(string \<times> logger_spec) list option"
  modes :: "(string \<times> addr) list option"
  default_mode :: "string option"
  configs :: "(string \<times> config_spec) list option"

text \<open>Exceptions. A \<^verbatim>\<open>ValueError\<close> carries the format string of the source (without its
  double quotes) and the values interpolated into it.\<close>
datatype error =
    ValueError string "string list"
  | NameError string
  | UnboundLocalError string
  | TypeError string

text \<open>Calls of the \<^verbatim>\<open>logging\<close> module: level, format string, arguments.\<close>
datatype log_record = LogRecord string string "string list"

text \<open>A registered callback is known by its name; its keyword arguments are a dict.\<close>
type_synonym callback = string
type_synonym kwargs = "(string \<times> string) list"

text \<open>The state: the five attributes of the object, the heap of \<^verbatim>\<open>{logger: config name}\<close>
  dicts with the next free address, and what the object has done to the outside so far:
  the records passed to \<^verbatim>\<open>logging\<close> and the callbacks invoked.\<close>
record state =
  cruise_configs :: "(string \<times> cruise_config) list"
  mode :: "(string \<times> string) list"
  logger_config :: "(string \<times> addr) list"
  callbacks :: "(string option \<times> (callback \<times> kwargs) list) list"
  status :: "(nat \<times> string) list"
  heap :: "addr \<Rightarrow> assignment"
  next_addr :: addr
  logged :: "log_record list"
  invoked :: "(callback \<times> kwargs) list"

text \<open>\<^verbatim>\<open>__init__\<close>, on a heap that already holds the caller's objects.\<close>
definition init :: "(addr \<Rightarrow> assignment) \<Rightarrow> addr \<Rightarrow> state" where
  "init h n = \<lparr>cruise_configs = [], mode = [], logger_config = [], callbacks = [],
     status = [], heap = h, next_addr = n, logged = [], invoked = []\<rparr>"

text \<open>Truth value of a dict with the five known keys, and of a logger specification:
  false exactly when no key is present.\<close>
definition cruise_config_truthy :: "cruise_config \<Rightarrow> bool" where
  "cruise_config_truthy c \<longleftrightarrow>
     cruise c \<noteq> None \<or> loggers c \<noteq> None \<or> modes c \<noteq> None \<or> default_mode c \<noteq> None
     \<or> configs c \<noteq> None"

definition logger_spec_truthy :: "logger_spec \<Rightarrow> bool" where
  "logger_spec_truthy sp \<longleftrightarrow> host sp \<noteq> None \<or> valid_configs sp \<noteq> None"

definition ID_SEPARATOR :: char where
  "ID_SEPARATOR = CHR '':''"

subsection \<open>Read accessors\<close>

definition get_cruises :: "state \<Rightarrow> string list" where
  "get_cruises s = map fst (cruise_configs s)"

definition get_cruise_config :: "state \<Rightarrow> string \<Rightarrow> error + cruise_config" where
  "get_cruise_config s cruise_id =
     (case map_of (cruise_configs s) cruise_id of
        None \<Rightarrow> Inl (ValueError ''No such cruise found: %s'' [cruise_id])
      | Some cruise_config \<Rightarrow>
          if \<not> cruise_config_truthy cruise_config
          then Inl (ValueError ''No such cruise found: %s'' [cruise_id])
          else Inr cruise_config)"

definition get_mode :: "state \<Rightarrow> string \<Rightarrow> string option" where
  "get_mode s cruise_id = map_of (mode s) cruise_id"

definition get_loggers :: "state \<Rightarrow> string \<Rightarrow> error + (string \<times> logger_spec) list" where
  "get_loggers s cruise_id =
     (case get_cruise_config s cruise_id of
        Inl e \<Rightarrow> Inl e
      | Inr cruise_config \<Rightarrow>
          (case loggers cruise_config of
             None \<Rightarrow> Inl (ValueError ''No loggers found in cruise %s'' [cruise_id])
           | Some ls \<Rightarrow>
               if ls = [] then Inl (ValueError ''No loggers found in cruise %s'' [cruise_id])
               else Inr ls))"

text \<open>\<^verbatim>\<open>get_logger(self, cruise_id, logger)\<close>: its last line reads \<^verbatim>\<open>loggers.get(logger_id)\<close>,
  and no name \<^verbatim>\<open>logger_id\<close> is bound in the method or the module.\<close>
definition get_logger :: "state \<Rightarrow> string \<Rightarrow> string \<Rightarrow> error + logger_spec option" where
  "get_logger s cruise_id logger =
     (case get_loggers s cruise_id of
        Inl e \<Rightarrow> Inl e
      | Inr ls \<Rightarrow>
          if map_of ls logger = None
          then Inl (ValueError ''No logger %s found in cruise %s'' [logger, cruise_id])
          else Inl (NameError ''logger_id''))"

text \<open>\<^verbatim>\<open>get_configs(cruise_id, mode)\<close>, the branch taken when both arguments are given and
  non-empty (lines 379 to 390): it returns the mode's dict itself, that is, its address.\<close>
definition get_configs :: "state \<Rightarrow> string \<Rightarrow> string \<Rightarrow> error + addr" where
  "get_configs s cruise_id mode' =
     (case get_cruise_config s cruise_id of
        Inl e \<Rightarrow> Inl e
      | Inr cruise_config \<Rightarrow>
          if \<not> cruise_config_truthy cruise_config
          then Inl (ValueError ''Cruise %s not found in data store'' [cruise_id])
          else (case modes cruise_config of
             None \<Rightarrow> Inl (ValueError ''Cruise %s has no modes??'' [cruise_id])
           | Some ms \<Rightarrow>
               if ms = [] then Inl (ValueError ''Cruise %s has no modes??'' [cruise_id])
               else (case map_of ms mode' of
                  None \<Rightarrow> Inl (ValueError ''Cruise %s has no mode %s'' [cruise_id, mode'])
                | Some a \<Rightarrow> Inr a)))"

text \<open>\<^verbatim>\<open>get_config(self, cruise_id, logger_id, mode=None)\<close>. With a mode given, the line
  \<^verbatim>\<open>config_name = logger_config_dict.get(logger, None)\<close> reads the name \<^verbatim>\<open>logger\<close>,
  which is bound neither in the method (the parameter is \<^verbatim>\<open>logger_id\<close>) nor in the
  module; the lines after it are never reached.\<close>
definition get_config ::
  "state \<Rightarrow> string \<Rightarrow> string \<Rightarrow> string option \<Rightarrow> error + config_spec option" where
  "get_config s cruise_id logger_id mode' =
     (case get_cruise_config s cruise_id of
        Inl e \<Rightarrow> Inl e
      | Inr cruise_config \<Rightarrow>
          if \<not> cruise_config_truthy cruise_config
          then Inl (ValueError ''No cruise config found for %s?!?'' [cruise_id])
          else (case configs cruise_config of
             None \<Rightarrow> Inl (ValueError ''Cruise %s has no configs?!?'' [cruise_id])
           | Some cs \<Rightarrow>
               if cs = [] then Inl (ValueError ''Cruise %s has no configs?!?'' [cruise_id])
               else (case mode' of
                  None \<Rightarrow>
                    (case map_of (logger_config s) cruise_id of
                       None \<Rightarrow> Inl (ValueError ''No config defined for cruise %s?!?'' [cruise_id])
                     | Some a \<Rightarrow>
                         if heap s a = []
                         then Inl (ValueError ''No config defined for cruise %s?!?'' [cruise_id])
                         else (case map_of (heap s a) logger_id of
                            None \<Rightarrow> Inr None
                          | Some config_name \<Rightarrow> Inr (map_of cs config_name)))
                | Some m \<Rightarrow>
                    (case modes cruise_config of
                       None \<Rightarrow> Inl (ValueError ''Cruise %s has no modes?!?'' [cruise_id])
                     | Some ms \<Rightarrow>
                         if ms = []
                         then Inl (ValueError ''Cruise %s has no modes?!?'' [cruise_id])
                         else (case map_of ms m of
                            None \<Rightarrow>
                              Inl (ValueError ''Cruise %s has no mode %s?!?'' [cruise_id, m])
                          | Some logger_config_dict \<Rightarrow> Inl (NameError ''logger''))))))"

subsection \<open>Mutators\<close>

text \<open>Every mutator returns the exception it raised, if any, and the state it left.\<close>

definition set_mode :: "state \<Rightarrow> string \<Rightarrow> string \<Rightarrow> error option \<times> state" where
  "set_mode s cruise_id mode' =
     (case get_cruise_config s cruise_id of
        Inl e \<Rightarrow> (Some e, s)
      | Inr cruise_config \<Rightarrow>
          if \<not> cruise_config_truthy cruise_config
          then (Some (ValueError ''Cruise %s not found in data store'' [cruise_id]), s)
          else (case modes cruise_config of
             None \<Rightarrow> (Some (ValueError ''Cruise %s has no modes??'' [cruise_id]), s)
           | Some ms \<Rightarrow>
               if ms = [] then (Some (ValueError ''Cruise %s has no modes??'' [cruise_id]), s)
               else (case map_of ms mode' of
                  None \<Rightarrow>
                    (Some (ValueError ''Cruise %s has no mode %s'' [cruise_id, mode']), s)
                | Some a \<Rightarrow>
                    (None,
                     s\<lparr>mode := AList.update cruise_id mode' (mode s),
                       logger_config := AList.update cruise_id (next_addr s) (logger_config s),
                       heap := (heap s)(next_addr s := heap s a),
                       next_addr := Suc (next_addr s)\<rparr>))))"

definition set_logger_config ::
  "state \<Rightarrow> string \<Rightarrow> string \<Rightarrow> string \<Rightarrow> error option \<times> state" where
  "set_logger_config s cruise_id logger config =
     (case get_cruise_config s cruise_id of
        Inl e \<Rightarrow> (Some e, s)
      | Inr cruise_config \<Rightarrow>
          if \<not> cruise_config_truthy cruise_config
          then (Some (ValueError ''Cruise %s not found in data store'' [cruise_id]), s)
          else (case loggers cruise_config of
             None \<Rightarrow> (Some (ValueError ''Cruise %s has no loggers??'' [cruise_id]), s)
           | Some ls \<Rightarrow>
               if ls = [] then (Some (ValueError ''Cruise %s has no loggers??'' [cruise_id]), s)
               else (case map_of ls logger of
                  None \<Rightarrow>
                    (Some (ValueError ''Cruise %s has no logger %s??'' [cruise_id, logger]), s)
                | Some logger_spec \<Rightarrow>
                    if \<not> logger_spec_truthy logger_spec
                    then (Some (ValueError ''Cruise %s has no logger %s??''
                                  [cruise_id, logger]), s)
                    else (case valid_configs logger_spec of
                       None \<Rightarrow>
                         (Some (ValueError ''Logger %s in cruise %s has no configs??''
                                  [logger, cruise_id]), s)
                     | Some cs \<Rightarrow>
                         if cs = []
                         then (Some (ValueError ''Logger %s in cruise %s has no configs??''
                                       [logger, cruise_id]), s)
                         else if config \<notin> set cs
                         then (Some (ValueError ''Config %s not valid for logger %s in cruise %s''
                                       [config, logger, cruise_id]), s)
                         else (case map_of (logger_config s) cruise_id of
                            None \<Rightarrow>
                              (None,
                               s\<lparr>logger_config :=
                                    AList.update cruise_id (next_addr s) (logger_config s),
                                 heap := (heap s)(next_addr s := AList.update logger config []),
                                 next_addr := Suc (next_addr s)\<rparr>)
                          | Some a \<Rightarrow>
                              (None,
                               s\<lparr>heap := (heap s)(a :=
                                    AList.update logger config (heap s a))\<rparr>))))))"

text \<open>\<^verbatim>\<open>load_cruise\<close>. Without \<^verbatim>\<open>cruise.id\<close> the source reads \<^verbatim>\<open>cruise_configs\<close>, a name
  that is not bound (the attribute is \<^verbatim>\<open>self.cruise_configs\<close>). With the separator in the
  id, the argument of \<^verbatim>\<open>ValueError\<close> is \<^verbatim>\<open>'... "%s" ... "%s"' % ID_SEPARATOR\<close>: two
  conversions and one value, which raises \<^verbatim>\<open>TypeError\<close> before \<^verbatim>\<open>ValueError\<close> is
  called.\<close>
definition load_cruise :: "state \<Rightarrow> cruise_config \<Rightarrow> error option \<times> state" where
  "load_cruise s cruise_config =
     (case (case cruise cruise_config of None \<Rightarrow> None | Some info \<Rightarrow> map_of info ''id'') of
        None \<Rightarrow> (Some (NameError ''cruise_configs''), s)
      | Some cruise_id \<Rightarrow>
          if ID_SEPARATOR \<in> set cruise_id
          then (Some (TypeError ''not enough arguments for format string''), s)
          else (let s1 = s\<lparr>cruise_configs :=
                              AList.update cruise_id cruise_config (cruise_configs s)\<rparr>
                in case default_mode cruise_config of
                     None \<Rightarrow> (None, s1)
                   | Some m \<Rightarrow> set_mode s1 cruise_id m))"

definition delete_cruise :: "state \<Rightarrow> string \<Rightarrow> error option \<times> state" where
  "delete_cruise s cruise_id =
     (let s1 = (if cruise_id \<in> fst ` set (cruise_configs s)
                then s\<lparr>cruise_configs := AList.delete cruise_id (cruise_configs s)\<rparr>
                else s\<lparr>logged := logged s @
                       [LogRecord ''ERROR'' ''Trying to delete undefined cruise %s''
                          [cruise_id]]\<rparr>);
          s2 = (if cruise_id \<in> fst ` set (mode s1)
                then s1\<lparr>mode := AList.delete cruise_id (mode s1)\<rparr> else s1);
          s3 = (if cruise_id \<in> fst ` set (logger_config s2)
                then s2\<lparr>logger_config := AList.delete cruise_id (logger_config s2)\<rparr> else s2);
          s4 = (if Some cruise_id \<in> fst ` set (callbacks s3)
                then s3\<lparr>callbacks := AList.delete (Some cruise_id) (callbacks s3)\<rparr> else s3)
      in (None, s4))"

subsection \<open>Update notification\<close>

definition on_update ::
  "state \<Rightarrow> callback \<Rightarrow> kwargs option \<Rightarrow> string option \<Rightarrow> error option \<times> state" where
  "on_update s callback kwargs cruise_id =
     (let registered = (case map_of (callbacks s) cruise_id of None \<Rightarrow> [] | Some cbs \<Rightarrow> cbs);
          kw = (case kwargs of None \<Rightarrow> [] | Some k \<Rightarrow> k)
      in (None, s\<lparr>callbacks :=
                    AList.update cruise_id (registered @ [(callback, kw)]) (callbacks s)\<rparr>))"

definition show_cruise_id :: "string option \<Rightarrow> string" where
  "show_cruise_id cruise_id = (case cruise_id of None \<Rightarrow> ''None'' | Some c \<Rightarrow> c)"

text \<open>The first \<^verbatim>\<open>if\<close> of \<^verbatim>\<open>signal_update\<close>. The body of its \<^verbatim>\<open>for\<close> loop is the call of
  \<^verbatim>\<open>logging.debug\<close> alone; \<^verbatim>\<open>callback(**kwargs)\<close> stands after the loop, at the
  indentation of the \<^verbatim>\<open>for\<close>, and so runs once, on the values the loop variables were
  left with. Callbacks are taken to return without raising and without touching the
  store.\<close>
definition signal_scope :: "state \<Rightarrow> string option \<Rightarrow> error option \<times> state" where
  "signal_scope s cruise_id =
     (case map_of (callbacks s) cruise_id of
        None \<Rightarrow> (None, s)
      | Some cbs \<Rightarrow>
          (let s1 = s\<lparr>logged := logged s @
                        map (\<lambda>(callback, kwargs).
                               LogRecord ''DEBUG'' ''Executing update callback for cruise %s: %s''
                                 [show_cruise_id cruise_id, callback]) cbs\<rparr>
           in if cbs = [] then (Some (UnboundLocalError ''callback''), s1)
              else (None, s1\<lparr>invoked := invoked s1 @ [last cbs]\<rparr>)))"

text \<open>\<^verbatim>\<open>signal_update\<close>: the given scope, then, when a cruise id was given, the recursive
  call with \<^verbatim>\<open>cruise_id=None\<close>.\<close>
definition signal_update :: "state \<Rightarrow> string option \<Rightarrow> error option \<times> state" where
  "signal_update s cruise_id =
     (case signal_scope s cruise_id of
        (Some e, s1) \<Rightarrow> (Some e, s1)
      | (None, s1) \<Rightarrow> if cruise_id \<noteq> None then signal_scope s1 None else (None, s1))"

subsection \<open>Derived notions used in the statements\<close>

text \<open>The address of the dict that mode \<open>m\<close> of the loaded cruise \<open>c\<close> maps to, the
  dict \<^verbatim>\<open>logger_config[c]\<close>, and its entry for one logger (the logger's current
  configuration name).\<close>
definition mode_mapping :: "state \<Rightarrow> string \<Rightarrow> string \<Rightarrow> addr option" where
  "mode_mapping s c m =
     (case get_cruise_config s c of
        Inl e \<Rightarrow> None
      | Inr cfg \<Rightarrow> (case modes cfg of None \<Rightarrow> None | Some ms \<Rightarrow> map_of ms m))"

definition live_table :: "state \<Rightarrow> string \<Rightarrow> assignment option" where
  "live_table s c = map_option (heap s) (map_of (logger_config s) c)"

definition current_config :: "state \<Rightarrow> string \<Rightarrow> string \<Rightarrow> string option" where
  "current_config s c l =
     (case map_of (logger_config s) c of None \<Rightarrow> None | Some a \<Rightarrow> map_of (heap s a) l)"

text \<open>The list of configuration names valid for logger \<open>l\<close> of the loaded cruise \<open>c\<close>;
  \<open>None\<close> when the cruise or the logger is missing.\<close>
definition logger_valid_configs :: "state \<Rightarrow> string \<Rightarrow> string \<Rightarrow> string list option" where
  "logger_valid_configs s c l =
     (case get_cruise_config s c of
        Inl e \<Rightarrow> None
      | Inr cfg \<Rightarrow>
          (case loggers cfg of
             None \<Rightarrow> None
           | Some ls \<Rightarrow>
               (case map_of ls l of
                  None \<Rightarrow> None
                | Some sp \<Rightarrow> Some (case valid_configs sp of None \<Rightarrow> [] | Some cs \<Rightarrow> cs))))"

text \<open>The id a cruise definition carries (\<^verbatim>\<open>cruise_config['cruise']['id']\<close>), and whether
  its default mode, if it names one, is one of its modes.\<close>
definition definition_id :: "cruise_config \<Rightarrow> string option" where
  "definition_id D = (case cruise D of None \<Rightarrow> None | Some info \<Rightarrow> map_of info ''id'')"

definition default_mode_defined :: "cruise_config \<Rightarrow> bool" where
  "default_mode_defined D =
     (case default_mode D of
        None \<Rightarrow> True
      | Some m \<Rightarrow> (case modes D of None \<Rightarrow> False | Some ms \<Rightarrow> map_of ms m \<noteq> None))"

text \<open>Addresses held by the live tables, and addresses held by the modes of the stored
  cruise definitions.\<close>
definition live_addrs :: "state \<Rightarrow> addr set" where
  "live_addrs s = snd ` set (logger_config s)"

definition mode_addrs :: "cruise_config \<Rightarrow> addr set" where
  "mode_addrs cfg = (case modes cfg of None \<Rightarrow> {} | Some ms \<Rightarrow> snd ` set ms)"

definition nominal_addrs :: "state \<Rightarrow> addr set" where
  "nominal_addrs s = (\<Union>p \<in> set (cruise_configs s). mode_addrs (snd p))"

text \<open>The invariant of the object: every address it holds is allocated, no two cruises
  share a live table, and no live table is the dict of a mode of a stored definition.\<close>
definition store_ok :: "state \<Rightarrow> bool" where
  "store_ok s \<longleftrightarrow>
     (\<forall>a \<in> live_addrs s. a < next_addr s) \<and>
     (\<forall>a \<in> nominal_addrs s. a < next_addr s) \<and>
     distinct (map snd (logger_config s)) \<and>
     live_addrs s \<inter> nominal_addrs s = {}"

text \<open>A sequence of mode switches and per-logger assignments, each applied to the state
  the previous one left, whether or not it raised.\<close>
datatype mutation = SetMode string string | SetLoggerConfig string string string

fun apply_mutation :: "state \<Rightarrow> mutation \<Rightarrow> state" where
  "apply_mutation s (SetMode c m) = snd (set_mode s c m)"
| "apply_mutation s (SetLoggerConfig c l k) = snd (set_logger_config s c l k)"

definition apply_mutations :: "state \<Rightarrow> mutation list \<Rightarrow> state" where
  "apply_mutations s ops = foldl apply_mutation s ops"

text \<open>The states the object can be in: it is created over the caller's heap; the caller
  creates dicts of its own; and the methods are called, \<^verbatim>\<open>load_cruise\<close> with a definition
  whose mode dicts are the caller's (the object hands out no reference to a live table).\<close>
inductive reachable :: "state \<Rightarrow> bool" where
  created: "reachable (init h n)"
| caller_dict:
    "reachable s \<Longrightarrow>
       reachable (s\<lparr>heap := (heap s)(next_addr s := d), next_addr := Suc (next_addr s)\<rparr>)"
| loaded:
    "reachable s \<Longrightarrow> \<forall>a \<in> mode_addrs D. a < next_addr s \<and> a \<notin> live_addrs s \<Longrightarrow>
       reachable (snd (load_cruise s D))"
| deleted: "reachable s \<Longrightarrow> reachable (snd (delete_cruise s c))"
| mode_set: "reachable s \<Longrightarrow> reachable (snd (set_mode s c m))"
| logger_config_set: "reachable s \<Longrightarrow> reachable (snd (set_logger_config s c l k))"
| registered: "reachable s \<Longrightarrow> reachable (snd (on_update s cb kw scope))"
| signalled: "reachable s \<Longrightarrow> reachable (snd (signal_update s scope))"

subsection \<open>A sample cruise\<close>

text \<open>The cruise of the documentation, cut down to two configurations per logger. The
  caller's two mode dicts are at addresses 0 and 1.\<close>
definition sample_heap :: "addr \<Rightarrow> assignment" where
  "sample_heap =
     (\<lambda>a. if a = 0 then [(''knud'', ''off''), (''gyr1'', ''off'')]
          else if a = 1 then [(''knud'', ''off''), (''gyr1'', ''net'')]
          else [])"

definition NBP1700 :: cruise_config where
  "NBP1700 =
     \<lparr>cruise = Some [(''id'', ''NBP1700'')],
      loggers = Some [(''knud'', \<lparr>host = Some ''knud.pi'', valid_configs = Some [''off'', ''net'']\<rparr>),
                      (''gyr1'', \<lparr>host = None, valid_configs = Some [''off'', ''net'']\<rparr>)],
      modes = Some [(''off'', 0), (''port'', 1)],
      default_mode = Some ''off'',
      configs = Some [(''off'', []), (''net'', [(''writer'', ''network'')])]\<rparr>"

definition sample_store :: state where
  "sample_store = snd (load_cruise (init sample_heap 2) NBP1700)"

text \<open>The sample cruise switched to mode \<^verbatim>\<open>port\<close>, and then \<^verbatim>\<open>knud\<close> set to
  \<^verbatim>\<open>net\<close> by hand.\<close>
definition port_store :: state where
  "port_store = snd (set_mode sample_store ''NBP1700'' ''port'')"

definition override_store :: state where
  "override_store = snd (set_logger_config port_store ''NBP1700'' ''knud'' ''net'')"

text \<open>The sample definition under an id that holds the separator.\<close>
definition separator_cruise :: cruise_config where
  "separator_cruise = NBP1700\<lparr>cruise := Some [(''id'', ''NBP:1700'')]\<rparr>"

text \<open>A fresh object with callbacks \<^verbatim>\<open>a\<close>, \<^verbatim>\<open>b\<close> registered for cruise \<^verbatim>\<open>X\<close> and
  \<^verbatim>\<open>w1\<close>, \<^verbatim>\<open>w2\<close> registered for all cruises, in this order.\<close>
definition observer_store :: state where
  "observer_store =
     snd (on_update (snd (on_update (snd (on_update (snd (on_update (init sample_heap 2)
       ''a'' None (Some ''X''))) ''b'' None (Some ''X''))) ''w1'' None None)) ''w2'' None None)"

text \<open>A fresh object with one callback registered for a cruise \<^verbatim>\<open>X\<close> that was never
  loaded.\<close>
definition lone_observer_store :: state where
  "lone_observer_store = snd (on_update (init sample_heap 2) ''cb'' None (Some ''X''))"

section \<open>Auxiliary facts\<close>

subsection \<open>Association lists\<close>

lemma snd_set_update_subset: "snd ` set (AList.update k v al) \<subseteq> insert v (snd ` set al)"
  by (induction al) auto

lemma distinct_snd_update:
  "distinct (map snd al) \<Longrightarrow> v \<notin> snd ` set al \<Longrightarrow> distinct (map snd (AList.update k v al))"
proof (induction al)
  case Nil
  then show ?case by simp
next
  case (Cons p al)
  have "snd ` set (AList.update k v al) \<subseteq> insert v (snd ` set al)"
    by (rule snd_set_update_subset)
  with Cons show ?case by (auto simp: image_iff)
qed

lemma snd_set_delete_subset: "snd ` set (AList.delete k al) \<subseteq> snd ` set al"
  by (induction al) auto

lemma distinct_snd_delete:
  "distinct (map snd al) \<Longrightarrow> distinct (map snd (AList.delete k al))"
proof (induction al)
  case Nil
  then show ?case by simp
next
  case (Cons p al)
  have "snd ` set (AList.delete k al) \<subseteq> snd ` set al"
    by (rule snd_set_delete_subset)
  with Cons show ?case by auto
qed

lemma map_of_snd_mem: "map_of al k = Some v \<Longrightarrow> v \<in> snd ` set al"
  by (force dest: map_of_SomeD)

lemma distinct_snd_keys:
  "distinct (map snd al) \<Longrightarrow> (k, v) \<in> set al \<Longrightarrow> (k', v) \<in> set al \<Longrightarrow> k = k'"
  by (induction al) force+

lemma set_update_subset: "set (AList.update k v al) \<subseteq> insert (k, v) (set al)"
  by (induction al) auto

subsection \<open>The mutators, case by case, and the invariant\<close>

lemma nominal_addrs_update:
  "nominal_addrs (s\<lparr>cruise_configs := AList.update i D (cruise_configs s)\<rparr>)
     \<subseteq> mode_addrs D \<union> nominal_addrs s"
proof
  fix a
  assume "a \<in> nominal_addrs (s\<lparr>cruise_configs := AList.update i D (cruise_configs s)\<rparr>)"
  then obtain p where p: "p \<in> set (AList.update i D (cruise_configs s))" and a: "a \<in> mode_addrs (snd p)"
    by (auto simp: nominal_addrs_def)
  from p set_update_subset [of i D "cruise_configs s"] have "p = (i, D) \<or> p \<in> set (cruise_configs s)"
    by blast
  with a show "a \<in> mode_addrs D \<union> nominal_addrs s"
    by (auto simp: nominal_addrs_def)
qed

lemma nominal_addrs_delete:
  "nominal_addrs (s\<lparr>cruise_configs := AList.delete i (cruise_configs s)\<rparr>) \<subseteq> nominal_addrs s"
  by (auto simp: nominal_addrs_def AList.delete_eq)

lemma store_ok_init: "store_ok (init h n)"
  by (simp add: store_ok_def init_def live_addrs_def nominal_addrs_def)


lemma get_cruise_config_Inr:
  "get_cruise_config s c = Inr cfg \<longleftrightarrow>
     map_of (cruise_configs s) c = Some cfg \<and> cruise_config_truthy cfg"
  by (auto simp: get_cruise_config_def split: option.split)

lemma mode_mapping_Some:
  "mode_mapping s c m = Some a \<longleftrightarrow>
     (\<exists>cfg ms. get_cruise_config s c = Inr cfg \<and> modes cfg = Some ms \<and> map_of ms m = Some a)"
  by (simp add: mode_mapping_def split: sum.split option.split)

lemma set_mode_Some:
  "mode_mapping s c m = Some a \<Longrightarrow>
     set_mode s c m = (None,
        s\<lparr>mode := AList.update c m (mode s),
          logger_config := AList.update c (next_addr s) (logger_config s),
          heap := (heap s)(next_addr s := heap s a),
          next_addr := Suc (next_addr s)\<rparr>)"
proof -
  assume "mode_mapping s c m = Some a"
  then obtain cfg ms where g: "get_cruise_config s c = Inr cfg"
    and ms: "modes cfg = Some ms" and a: "map_of ms m = Some a"
    by (auto simp: mode_mapping_Some)
  from g have "cruise_config_truthy cfg" by (simp add: get_cruise_config_Inr)
  moreover from a have "ms \<noteq> []" by auto
  ultimately show ?thesis using g ms a by (simp add: set_mode_def)
qed

lemma set_mode_None:
  "mode_mapping s c m = None \<Longrightarrow> \<exists>e. set_mode s c m = (Some e, s)"
  by (auto simp: mode_mapping_def set_mode_def split: sum.splits option.splits)

lemma mode_mapping_nominal: "mode_mapping s c m = Some a \<Longrightarrow> a \<in> nominal_addrs s"
proof -
  assume "mode_mapping s c m = Some a"
  then obtain cfg ms where c: "map_of (cruise_configs s) c = Some cfg"
    and ms: "modes cfg = Some ms" and a: "map_of ms m = Some a"
    by (auto simp: mode_mapping_Some get_cruise_config_Inr)
  from c have "(c, cfg) \<in> set (cruise_configs s)" by (rule map_of_SomeD)
  moreover from a ms have "a \<in> mode_addrs cfg"
    by (simp add: mode_addrs_def map_of_snd_mem)
  ultimately show ?thesis by (force simp: nominal_addrs_def)
qed



lemma store_ok_step:
  assumes ok: "store_ok s"
    and live: "live_addrs s' \<subseteq> insert (next_addr s) (live_addrs s)"
    and nom: "nominal_addrs s' \<subseteq> nominal_addrs s \<union> N"
    and N: "\<forall>a\<in>N. a < next_addr s \<and> a \<notin> live_addrs s"
    and d: "distinct (map snd (logger_config s'))"
    and n: "next_addr s \<le> next_addr s'"
    and fresh: "next_addr s \<in> live_addrs s' \<Longrightarrow> next_addr s < next_addr s'"
  shows "store_ok s'"
proof -
  from ok have l: "\<forall>a\<in>live_addrs s. a < next_addr s"
    and m: "\<forall>a\<in>nominal_addrs s. a < next_addr s"
    and disj: "live_addrs s \<inter> nominal_addrs s = {}"
    by (simp_all add: store_ok_def)
  have 1: "\<forall>a\<in>live_addrs s'. a < next_addr s'"
  proof
    fix a assume a: "a \<in> live_addrs s'"
    with live have "a = next_addr s \<or> a \<in> live_addrs s" by blast
    then show "a < next_addr s'"
    proof
      assume "a = next_addr s"
      with a fresh show ?thesis by simp
    next
      assume "a \<in> live_addrs s"
      with l have "a < next_addr s" by blast
      with n show ?thesis by simp
    qed
  qed
  have m': "\<forall>a\<in>nominal_addrs s'. a < next_addr s"
    using nom m N by blast
  have 2: "\<forall>a\<in>nominal_addrs s'. a < next_addr s'"
    using m' n by fastforce
  have 4: "live_addrs s' \<inter> nominal_addrs s' = {}"
  proof (rule ccontr)
    assume "live_addrs s' \<inter> nominal_addrs s' \<noteq> {}"
    then obtain a where a: "a \<in> live_addrs s'" and b: "a \<in> nominal_addrs s'" by blast
    from b m' have lt: "a < next_addr s" by blast
    with a live have "a \<in> live_addrs s" by blast
    moreover from b nom have "a \<in> nominal_addrs s \<or> a \<in> N" by blast
    ultimately show False using disj N by blast
  qed
  from 1 2 d 4 show ?thesis by (simp add: store_ok_def)
qed

lemma store_ok_set_mode: "store_ok s \<Longrightarrow> store_ok (snd (set_mode s c m))"
proof (cases "mode_mapping s c m")
  case None
  assume "store_ok s"
  with set_mode_None [OF None] show ?thesis by auto
next
  case (Some a)
  assume ok: "store_ok s"
  have fresh: "next_addr s \<notin> snd ` set (logger_config s)"
    using ok by (auto simp: store_ok_def live_addrs_def)
  have d: "distinct (map snd (AList.update c (next_addr s) (logger_config s)))"
    using ok fresh by (intro distinct_snd_update) (auto simp: store_ok_def)
  show ?thesis
    unfolding set_mode_Some [OF Some] snd_conv
    by (rule store_ok_step [OF ok, where N = "{}"])
       (simp_all add: live_addrs_def nominal_addrs_def snd_set_update_subset d)
qed


lemma logger_valid_configs_Some:
  "logger_valid_configs s c l = Some cs \<longleftrightarrow>
     (\<exists>cfg ls sp. get_cruise_config s c = Inr cfg \<and> loggers cfg = Some ls \<and>
        map_of ls l = Some sp \<and> cs = (case valid_configs sp of None \<Rightarrow> [] | Some x \<Rightarrow> x))"
  by (auto simp: logger_valid_configs_def split: sum.splits option.splits)

lemma set_logger_config_valid:
  assumes v: "logger_valid_configs s c l = Some cs" and k: "k \<in> set cs"
  shows "set_logger_config s c l k =
     (None,
      case map_of (logger_config s) c of
        None \<Rightarrow> s\<lparr>logger_config := AList.update c (next_addr s) (logger_config s),
                   heap := (heap s)(next_addr s := AList.update l k []),
                   next_addr := Suc (next_addr s)\<rparr>
      | Some a \<Rightarrow> s\<lparr>heap := (heap s)(a := AList.update l k (heap s a))\<rparr>)"
proof -
  from v obtain cfg ls sp where g: "get_cruise_config s c = Inr cfg"
    and ls: "loggers cfg = Some ls" and sp: "map_of ls l = Some sp"
    and cs: "cs = (case valid_configs sp of None \<Rightarrow> [] | Some x \<Rightarrow> x)"
    by (auto simp: logger_valid_configs_Some)
  from g have t: "cruise_config_truthy cfg" by (simp add: get_cruise_config_Inr)
  from sp have ne: "ls \<noteq> []" by auto
  from k cs have vc: "valid_configs sp = Some cs" by (cases "valid_configs sp") auto
  then have st: "logger_spec_truthy sp" by (simp add: logger_spec_truthy_def)
  from k have ne': "cs \<noteq> []" by auto
  show ?thesis
    using g t ls ne sp st vc ne' k
    by (simp add: set_logger_config_def split: option.split)
qed

lemma set_logger_config_unchanged_or_valid:
  "(\<exists>e. set_logger_config s c l k = (Some e, s)) \<or>
   (\<exists>cs. logger_valid_configs s c l = Some cs \<and> k \<in> set cs)"
  by (auto simp: set_logger_config_def logger_valid_configs_def split: sum.splits option.splits)


lemma store_ok_set_logger_config:
  assumes ok: "store_ok s"
  shows "store_ok (snd (set_logger_config s c l k))"
proof -
  from set_logger_config_unchanged_or_valid [of s c l k] show ?thesis
  proof
    assume "\<exists>e. set_logger_config s c l k = (Some e, s)"
    with ok show ?thesis by auto
  next
    assume "\<exists>cs. logger_valid_configs s c l = Some cs \<and> k \<in> set cs"
    then obtain cs where v: "logger_valid_configs s c l = Some cs" and k: "k \<in> set cs"
      by blast
    show ?thesis
    proof (cases "map_of (logger_config s) c")
      case None
      have fresh: "next_addr s \<notin> snd ` set (logger_config s)"
        using ok by (auto simp: store_ok_def live_addrs_def)
      have d: "distinct (map snd (AList.update c (next_addr s) (logger_config s)))"
        using ok fresh by (intro distinct_snd_update) (auto simp: store_ok_def)
      show ?thesis
        unfolding set_logger_config_valid [OF v k] snd_conv None option.case
        by (rule store_ok_step [OF ok, where N = "{}"])
           (simp_all add: live_addrs_def nominal_addrs_def snd_set_update_subset d)
    next
      case (Some a)
      have d: "distinct (map snd (logger_config s))"
        using ok by (simp add: store_ok_def)
      have fresh: "next_addr s \<notin> live_addrs s"
        using ok by (auto simp: store_ok_def)
      show ?thesis
        unfolding set_logger_config_valid [OF v k] snd_conv Some option.case
        by (rule store_ok_step [OF ok, where N = "{}"])
           (insert fresh, auto simp: live_addrs_def nominal_addrs_def d)
    qed
  qed
qed

subsection \<open>The stored definitions are never written to\<close>

lemma nominal_addrs_cong:
  "cruise_configs s' = cruise_configs s \<Longrightarrow> nominal_addrs s' = nominal_addrs s"
  by (simp add: nominal_addrs_def)

lemma set_mode_keeps_definitions:
  assumes ok: "store_ok s"
  shows "cruise_configs (snd (set_mode s c m)) = cruise_configs s \<and>
         (\<forall>a \<in> nominal_addrs s. heap (snd (set_mode s c m)) a = heap s a)"
proof (cases "mode_mapping s c m")
  case None
  with set_mode_None [OF None] show ?thesis by auto
next
  case (Some a)
  have "\<forall>b \<in> nominal_addrs s. b \<noteq> next_addr s"
    using ok by (auto simp: store_ok_def)
  then show ?thesis by (simp add: set_mode_Some [OF Some])
qed

lemma set_logger_config_keeps_definitions:
  assumes ok: "store_ok s"
  shows "cruise_configs (snd (set_logger_config s c l k)) = cruise_configs s \<and>
         (\<forall>a \<in> nominal_addrs s. heap (snd (set_logger_config s c l k)) a = heap s a)"
proof -
  from set_logger_config_unchanged_or_valid [of s c l k] show ?thesis
  proof
    assume "\<exists>e. set_logger_config s c l k = (Some e, s)"
    then show ?thesis by auto
  next
    assume "\<exists>cs. logger_valid_configs s c l = Some cs \<and> k \<in> set cs"
    then obtain cs where v: "logger_valid_configs s c l = Some cs" and k: "k \<in> set cs"
      by blast
    have fresh: "\<forall>b \<in> nominal_addrs s. b \<noteq> next_addr s"
      using ok by (auto simp: store_ok_def)
    show ?thesis
    proof (cases "map_of (logger_config s) c")
      case None
      with fresh show ?thesis by (simp add: set_logger_config_valid [OF v k])
    next
      case (Some a)
      have "a \<in> live_addrs s"
        using map_of_snd_mem [OF Some] by (simp add: live_addrs_def)
      then have "\<forall>b \<in> nominal_addrs s. b \<noteq> a"
        using ok by (auto simp: store_ok_def)
      with Some show ?thesis by (simp add: set_logger_config_valid [OF v k])
    qed
  qed
qed

lemma apply_mutation_keeps_definitions:
  assumes ok: "store_ok s"
  shows "store_ok (apply_mutation s x) \<and> cruise_configs (apply_mutation s x) = cruise_configs s \<and>
         (\<forall>a \<in> nominal_addrs s. heap (apply_mutation s x) a = heap s a)"
proof (cases x)
  case (SetMode c m)
  with store_ok_set_mode [OF ok, of c m] set_mode_keeps_definitions [OF ok, of c m]
  show ?thesis by simp
next
  case (SetLoggerConfig c l k)
  with store_ok_set_logger_config [OF ok, of c l k]
    set_logger_config_keeps_definitions [OF ok, of c l k]
  show ?thesis by simp
qed

lemma apply_mutations_keeps_definitions:
  "store_ok s \<Longrightarrow>
     store_ok (apply_mutations s xs) \<and> cruise_configs (apply_mutations s xs) = cruise_configs s \<and>
     (\<forall>a \<in> nominal_addrs s. heap (apply_mutations s xs) a = heap s a)"
proof (induction xs arbitrary: s)
  case Nil
  then show ?case by (simp add: apply_mutations_def)
next
  case (Cons x xs)
  let ?s1 = "apply_mutation s x"
  from apply_mutation_keeps_definitions [OF Cons.prems, of x]
  have ok1: "store_ok ?s1" and cc: "cruise_configs ?s1 = cruise_configs s"
    and h: "\<forall>a \<in> nominal_addrs s. heap ?s1 a = heap s a"
    by simp_all
  have n: "nominal_addrs ?s1 = nominal_addrs s"
    using cc by (rule nominal_addrs_cong)
  from Cons.IH [OF ok1] cc h n show ?case
    by (simp add: apply_mutations_def)
qed

lemma get_configs_Inr: "get_configs s c m = Inr a \<Longrightarrow> mode_mapping s c m = Some a"
  by (auto simp: get_configs_def mode_mapping_def split: sum.splits option.splits if_splits)

lemma get_configs_cong:
  "cruise_configs s' = cruise_configs s \<Longrightarrow> get_configs s' c m = get_configs s c m"
  by (simp add: get_configs_def get_cruise_config_def)

lemma load_cruise_unfold:
  assumes "cruise D = Some info" and "map_of info ''id'' = Some i" and "ID_SEPARATOR \<notin> set i"
  shows "load_cruise s D =
     (case default_mode D of
        None \<Rightarrow> (None, s\<lparr>cruise_configs := AList.update i D (cruise_configs s)\<rparr>)
      | Some m \<Rightarrow> set_mode (s\<lparr>cruise_configs := AList.update i D (cruise_configs s)\<rparr>) i m)"
  using assms by (simp add: load_cruise_def Let_def)

lemma load_cruise_rejected:
  "(case cruise D of None \<Rightarrow> None | Some info \<Rightarrow> map_of info ''id'') = None \<or>
   (\<exists>i. (case cruise D of None \<Rightarrow> None | Some info \<Rightarrow> map_of info ''id'') = Some i \<and>
      ID_SEPARATOR \<in> set i) \<Longrightarrow> \<exists>e. load_cruise s D = (Some e, s)"
  by (auto simp: load_cruise_def)

lemma store_ok_load_cruise:
  assumes ok: "store_ok s"
    and ext: "\<forall>a \<in> mode_addrs D. a < next_addr s \<and> a \<notin> live_addrs s"
  shows "store_ok (snd (load_cruise s D))"
proof (cases "case cruise D of None \<Rightarrow> None | Some info \<Rightarrow> map_of info ''id''")
  case None
  with ok show ?thesis by (simp add: load_cruise_def)
next
  case (Some i)
  show ?thesis
  proof (cases "ID_SEPARATOR \<in> set i")
    case True
    with ok Some show ?thesis by (simp add: load_cruise_def)
  next
    case False
    let ?s1 = "s\<lparr>cruise_configs := AList.update i D (cruise_configs s)\<rparr>"
    have d: "distinct (map snd (logger_config s))"
      using ok by (simp add: store_ok_def)
    have fresh: "next_addr s \<notin> live_addrs s"
      using ok by (auto simp: store_ok_def)
    have sub: "nominal_addrs ?s1 \<subseteq> nominal_addrs s \<union> mode_addrs D"
      using nominal_addrs_update [where s = s and i = i and D = D] by blast
    have ok1: "store_ok ?s1"
      by (rule store_ok_step [OF ok _ sub ext])
         (insert fresh, auto simp: live_addrs_def d)
    show ?thesis
    proof (cases "default_mode D")
      case None
      with ok1 Some False show ?thesis by (simp add: load_cruise_def Let_def)
    next
      case (Some m)
      with store_ok_set_mode [OF ok1, of i m] \<open>_ = Some i\<close> False
      show ?thesis by (simp add: load_cruise_def Let_def)
    qed
  qed
qed

lemma store_ok_delete_cruise: "store_ok s \<Longrightarrow> store_ok (snd (delete_cruise s c))"
proof -
  assume ok: "store_ok s"
  let ?s' = "snd (delete_cruise s c)"
  have cc: "cruise_configs ?s' = AList.delete c (cruise_configs s)"
    and lc: "logger_config ?s' = AList.delete c (logger_config s)"
    and n: "next_addr ?s' = next_addr s"
    by (simp_all add: delete_cruise_def Let_def)
  have live: "live_addrs ?s' \<subseteq> insert (next_addr s) (live_addrs s)"
    using snd_set_delete_subset [of c "logger_config s"] by (auto simp: live_addrs_def lc)
  have nom: "nominal_addrs ?s' \<subseteq> nominal_addrs s \<union> {}"
    by (auto simp: nominal_addrs_def cc AList.delete_eq)
  have d: "distinct (map snd (logger_config ?s'))"
    using ok by (simp add: lc distinct_snd_delete store_ok_def)
  have "next_addr s \<notin> live_addrs s"
    using ok by (auto simp: store_ok_def)
  with live have fresh: "next_addr s \<notin> live_addrs ?s'"
    using snd_set_delete_subset [of c "logger_config s"] by (auto simp: live_addrs_def lc)
  show ?thesis
    by (rule store_ok_step [OF ok live nom _ d]) (insert fresh, simp_all add: n)
qed

lemma store_ok_on_update: "store_ok s \<Longrightarrow> store_ok (snd (on_update s cb kw k))"
  by (simp add: on_update_def Let_def store_ok_def live_addrs_def nominal_addrs_def)

lemma store_ok_signal_update: "store_ok s \<Longrightarrow> store_ok (snd (signal_update s k))"
  by (auto simp: signal_update_def signal_scope_def Let_def store_ok_def live_addrs_def
        nominal_addrs_def split: option.splits)

lemma store_ok_caller_dict:
  assumes ok: "store_ok s"
  shows "store_ok (s\<lparr>heap := (heap s)(next_addr s := d), next_addr := Suc (next_addr s)\<rparr>)"
proof -
  have d: "distinct (map snd (logger_config s))"
    using ok by (simp add: store_ok_def)
  have fresh: "next_addr s \<notin> live_addrs s"
    using ok by (auto simp: store_ok_def)
  show ?thesis
    by (rule store_ok_step [OF ok, where N = "{}"])
       (insert fresh, auto simp: live_addrs_def nominal_addrs_def d)
qed

lemma reachable_store_ok: "reachable s \<Longrightarrow> store_ok s"
proof (induction rule: reachable.induct)
  case (created h n)
  show ?case by (rule store_ok_init)
next
  case (caller_dict s d)
  then show ?case by (simp add: store_ok_caller_dict)
next
  case (loaded s D)
  then show ?case by (simp add: store_ok_load_cruise)
next
  case (deleted s c)
  then show ?case by (simp add: store_ok_delete_cruise)
next
  case (mode_set s c m)
  then show ?case by (simp add: store_ok_set_mode)
next
  case (logger_config_set s c l k)
  then show ?case by (simp add: store_ok_set_logger_config)
next
  case (registered s cb kw scope)
  then show ?case by (simp add: store_ok_on_update)
next
  case (signalled s scope)
  then show ?case by (simp add: store_ok_signal_update)
qed

subsection \<open>What the read and signal paths do in general\<close>

lemma signal_scope_invokes_last:
  "map_of (callbacks s) k = Some cbs \<Longrightarrow> cbs \<noteq> [] \<Longrightarrow>
     fst (signal_scope s k) = None \<and> invoked (snd (signal_scope s k)) = invoked s @ [last cbs]"
  by (simp add: signal_scope_def Let_def)

lemma get_logger_never_returns: "get_logger s c l \<noteq> Inr x"
  by (simp add: get_logger_def split: sum.split)

lemma get_config_with_mode_never_returns: "get_config s c l (Some m) \<noteq> Inr x"
  by (simp add: get_config_def split: sum.split option.split)

lemma get_config_current:
  assumes "get_cruise_config s c = Inr cfg" and "configs cfg = Some cs" and "cs \<noteq> []"
    and "current_config s c l = Some k"
  shows "get_config s c l None = Inr (map_of cs k)"
proof -
  from assms(1) have t: "cruise_config_truthy cfg" by (simp add: get_cruise_config_Inr)
  from assms(4) obtain a where a: "map_of (logger_config s) c = Some a"
    and l: "map_of (heap s a) l = Some k"
    by (auto simp: current_config_def split: option.splits)
  from l have "heap s a \<noteq> []" by auto
  with assms(1-3) t a l show ?thesis by (simp add: get_config_def)
qed

lemma load_cruise_separator:
  "definition_id D = Some i \<Longrightarrow> ID_SEPARATOR \<in> set i \<Longrightarrow>
     load_cruise s D = (Some (TypeError ''not enough arguments for format string''), s)"
  by (simp add: load_cruise_def definition_id_def)

subsection \<open>The sample states, evaluated\<close>

lemma sample_store_eq:
  "sample_store =
     \<lparr>cruise_configs = [(''NBP1700'', NBP1700)], mode = [(''NBP1700'', ''off'')],
      logger_config = [(''NBP1700'', 2)], callbacks = [], status = [],
      heap = sample_heap(2 := sample_heap 0), next_addr = 3,
      logged = [], invoked = []\<rparr>"
proof -
  let ?s1 = "(init sample_heap 2)\<lparr>cruise_configs := [(''NBP1700'', NBP1700)]\<rparr>"
  have "load_cruise (init sample_heap 2) NBP1700 = set_mode ?s1 ''NBP1700'' ''off''"
    by (simp add: load_cruise_def NBP1700_def ID_SEPARATOR_def init_def)
  moreover have "mode_mapping ?s1 ''NBP1700'' ''off'' = Some 0"
    by (simp add: mode_mapping_def get_cruise_config_def cruise_config_truthy_def NBP1700_def
          init_def)
  ultimately show ?thesis
    by (simp add: sample_store_def set_mode_Some init_def)
qed

lemma port_store_eq:
  "port_store =
     \<lparr>cruise_configs = [(''NBP1700'', NBP1700)], mode = [(''NBP1700'', ''port'')],
      logger_config = [(''NBP1700'', 3)], callbacks = [], status = [],
      heap = sample_heap(2 := sample_heap 0, 3 := sample_heap 1), next_addr = 4,
      logged = [], invoked = []\<rparr>"
proof -
  have "mode_mapping sample_store ''NBP1700'' ''port'' = Some 1"
    by (simp add: sample_store_eq mode_mapping_def get_cruise_config_def cruise_config_truthy_def
          NBP1700_def)
  then show ?thesis
    by (simp add: port_store_def set_mode_Some) (simp add: sample_store_eq)
qed

lemma port_store_valid_configs:
  "logger_valid_configs port_store ''NBP1700'' ''knud'' = Some [''off'', ''net'']"
  by (simp add: port_store_eq logger_valid_configs_def get_cruise_config_def
        cruise_config_truthy_def NBP1700_def)

lemma override_store_eq:
  "override_store =
     \<lparr>cruise_configs = [(''NBP1700'', NBP1700)], mode = [(''NBP1700'', ''port'')],
      logger_config = [(''NBP1700'', 3)], callbacks = [], status = [],
      heap = sample_heap(2 := sample_heap 0, 3 := [(''knud'', ''net''), (''gyr1'', ''net'')]),
      next_addr = 4, logged = [], invoked = []\<rparr>"
proof -
  have "set_logger_config port_store ''NBP1700'' ''knud'' ''net'' =
     (None, port_store\<lparr>heap := (heap port_store)(3 :=
        AList.update ''knud'' ''net'' (heap port_store 3))\<rparr>)"
    using set_logger_config_valid [OF port_store_valid_configs, of "''net''"]
    by (simp add: port_store_eq)
  then show ?thesis
    by (simp add: override_store_def) (simp add: port_store_eq sample_heap_def)
qed

lemma store_ok_sample_store: "store_ok sample_store"
  unfolding sample_store_def
  by (rule store_ok_load_cruise [OF store_ok_init])
     (simp add: mode_addrs_def NBP1700_def init_def live_addrs_def)

lemma store_ok_port_store: "store_ok port_store"
  unfolding port_store_def by (rule store_ok_set_mode [OF store_ok_sample_store])

lemma store_ok_override_store: "store_ok override_store"
  unfolding override_store_def by (rule store_ok_set_logger_config [OF store_ok_port_store])

lemma observer_store_callbacks:
  "callbacks observer_store =
     [(Some ''X'', [(''a'', []), (''b'', [])]), (None, [(''w1'', []), (''w2'', [])])]"
  by (simp add: observer_store_def on_update_def init_def)

section \<open>The claims\<close>

text \<open>
  \<^bold>\<open>C1.\<close> The claim: \<^verbatim>\<open>signal_update(cruise_id)\<close> invokes every callback registered under
  \<^verbatim>\<open>cruise_id\<close>, each once and in registration order, and then every callback registered
  under the wildcard scope, each once and in registration order.

  The code does not: with \<^verbatim>\<open>a\<close>, \<^verbatim>\<open>b\<close> registered for cruise \<^verbatim>\<open>X\<close> and \<^verbatim>\<open>w1\<close>,
  \<^verbatim>\<open>w2\<close> registered for all cruises, \<^verbatim>\<open>signal_update('X')\<close> returns normally having
  invoked \<^verbatim>\<open>b\<close> and \<^verbatim>\<open>w2\<close> only. In each scope the loop logs every registration and the
  call after the loop reaches the last one.
\<close>

theorem signal_update_invokes_last_registration_only:
  "map_of (callbacks observer_store) (Some ''X'') = Some [(''a'', []), (''b'', [])] \<and>
   map_of (callbacks observer_store) None = Some [(''w1'', []), (''w2'', [])] \<and>
   fst (signal_update observer_store (Some ''X'')) = None \<and>
   invoked (snd (signal_update observer_store (Some ''X''))) = [(''b'', []), (''w2'', [])]"
proof -
  have "invoked observer_store = []"
    by (simp add: observer_store_def on_update_def init_def)
  then show ?thesis
    by (simp add: signal_update_def signal_scope_def observer_store_callbacks)
qed

text \<open>
  \<^bold>\<open>C2.\<close> The claim: after \<^verbatim>\<open>set_mode(c, m)\<close> and an overriding
  \<^verbatim>\<open>set_logger_config(c, l, k)\<close>, \<^verbatim>\<open>get_config(c, l)\<close> returns the configuration named
  \<open>k\<close> and \<^verbatim>\<open>get_config(c, l, mode=m)\<close> returns the configuration that \<open>m\<close> maps \<open>l\<close> to.

  On the sample cruise in mode \<^verbatim>\<open>port\<close> with \<^verbatim>\<open>knud\<close> overridden to \<^verbatim>\<open>net\<close>, the first
  call returns the specification of \<^verbatim>\<open>net\<close>, as claimed. The second call does not return
  the specification of \<^verbatim>\<open>off\<close>, which \<^verbatim>\<open>port\<close> maps \<^verbatim>\<open>knud\<close> to: it raises
  \<^verbatim>\<open>NameError\<close>.
\<close>

theorem get_config_with_mode_raises_name_error:
  "current_config override_store ''NBP1700'' ''knud'' = Some ''net'' \<and>
   get_config override_store ''NBP1700'' ''knud'' None = Inr (Some [(''writer'', ''network'')]) \<and>
   mode_mapping override_store ''NBP1700'' ''port'' = Some 1 \<and>
   heap override_store 1 = [(''knud'', ''off''), (''gyr1'', ''net'')] \<and>
   get_config override_store ''NBP1700'' ''knud'' (Some ''port'') = Inl (NameError ''logger'')"
  by (simp add: override_store_eq current_config_def get_config_def mode_mapping_def
        get_cruise_config_def cruise_config_truthy_def NBP1700_def sample_heap_def)

text \<open>
  \<^bold>\<open>C3.\<close> For a loaded cruise \<open>c\<close> and a mode \<open>m\<close> defined in it, \<^verbatim>\<open>set_mode(c, m)\<close> returns
  normally, the current mode of \<open>c\<close> is then \<open>m\<close>, and the live table of \<open>c\<close> is then, as a
  whole, the dict that \<open>m\<close> maps to, whatever the table held before (so earlier per-logger
  overrides are gone). If the cruise or the mode does not exist, the call raises and the
  state is the one before the call.
\<close>

theorem set_mode_replaces_live_table:
  "(\<forall>a. mode_mapping s c m = Some a \<longrightarrow>
      fst (set_mode s c m) = None \<and>
      get_mode (snd (set_mode s c m)) c = Some m \<and>
      live_table (snd (set_mode s c m)) c = Some (heap s a)) \<and>
   (mode_mapping s c m = None \<longrightarrow> (\<exists>e. set_mode s c m = (Some e, s)))"
proof (cases "mode_mapping s c m")
  case None
  with set_mode_None [OF None] show ?thesis by simp
next
  case (Some a)
  then show ?thesis
    by (simp add: set_mode_Some [OF Some] get_mode_def live_table_def update_conv')
qed

text \<open>An instance: the sample cruise in mode \<^verbatim>\<open>port\<close> with \<^verbatim>\<open>knud\<close> overridden to \<^verbatim>\<open>net\<close>
  is switched to mode \<^verbatim>\<open>off\<close>; and a switch to the undefined mode \<^verbatim>\<open>underway\<close> raises
  and changes nothing.\<close>

theorem set_mode_replaces_live_table_witness:
  "mode_mapping override_store ''NBP1700'' ''off'' = Some 0 \<and>
   current_config override_store ''NBP1700'' ''knud'' = Some ''net'' \<and>
   fst (set_mode override_store ''NBP1700'' ''off'') = None \<and>
   get_mode (snd (set_mode override_store ''NBP1700'' ''off'')) ''NBP1700'' = Some ''off'' \<and>
   live_table (snd (set_mode override_store ''NBP1700'' ''off'')) ''NBP1700'' =
     Some [(''knud'', ''off''), (''gyr1'', ''off'')] \<and>
   mode_mapping sample_store ''NBP1700'' ''underway'' = None \<and>
   fst (set_mode sample_store ''NBP1700'' ''underway'') \<noteq> None \<and>
   snd (set_mode sample_store ''NBP1700'' ''underway'') = sample_store"
proof -
  have a: "mode_mapping override_store ''NBP1700'' ''off'' = Some 0"
    by (simp add: override_store_eq mode_mapping_def get_cruise_config_def
          cruise_config_truthy_def NBP1700_def)
  have b: "current_config override_store ''NBP1700'' ''knud'' = Some ''net''"
    by (simp add: override_store_eq current_config_def)
  have h: "heap override_store 0 = [(''knud'', ''off''), (''gyr1'', ''off'')]"
    by (simp add: override_store_eq sample_heap_def)
  have c: "mode_mapping sample_store ''NBP1700'' ''underway'' = None"
    by (simp add: sample_store_eq mode_mapping_def get_cruise_config_def
          cruise_config_truthy_def NBP1700_def)
  from set_mode_replaces_live_table [of override_store "''NBP1700''" "''off''"] a h
  have 1: "fst (set_mode override_store ''NBP1700'' ''off'') = None \<and>
     get_mode (snd (set_mode override_store ''NBP1700'' ''off'')) ''NBP1700'' = Some ''off'' \<and>
     live_table (snd (set_mode override_store ''NBP1700'' ''off'')) ''NBP1700'' =
       Some [(''knud'', ''off''), (''gyr1'', ''off'')]"
    by simp
  from set_mode_replaces_live_table [of sample_store "''NBP1700''" "''underway''"] c
  obtain e where "set_mode sample_store ''NBP1700'' ''underway'' = (Some e, sample_store)"
    by blast
  then have 2: "fst (set_mode sample_store ''NBP1700'' ''underway'') \<noteq> None \<and>
     snd (set_mode sample_store ''NBP1700'' ''underway'') = sample_store"
    by simp
  from a b c 1 2 show ?thesis by blast
qed

text \<open>
  \<^bold>\<open>C4.\<close> For a loaded cruise \<open>c\<close>, a logger \<open>l\<close> of \<open>c\<close> and a name \<open>k\<close> outside the valid
  configurations of \<open>l\<close>, \<^verbatim>\<open>set_logger_config(c, l, k)\<close> raises a \<^verbatim>\<open>ValueError\<close> whose
  message names the cruise and the logger, and the state is exactly the one before the
  call. When the logger has a non-empty list of valid configurations, the message is the
  one for an invalid configuration and names \<open>k\<close>, \<open>l\<close> and \<open>c\<close>.
\<close>

theorem set_logger_config_rejects_invalid:
  assumes v: "logger_valid_configs s c l = Some cs" and k: "k \<notin> set cs"
  shows "\<exists>t args. set_logger_config s c l k = (Some (ValueError t args), s) \<and>
           c \<in> set args \<and> l \<in> set args \<and>
           (cs \<noteq> [] \<longrightarrow> t = ''Config %s not valid for logger %s in cruise %s'' \<and>
                          args = [k, l, c])"
proof -
  from v obtain cfg ls sp where g: "get_cruise_config s c = Inr cfg"
    and ls: "loggers cfg = Some ls" and sp: "map_of ls l = Some sp"
    and cs: "cs = (case valid_configs sp of None \<Rightarrow> [] | Some x \<Rightarrow> x)"
    by (auto simp: logger_valid_configs_Some)
  from g have t: "cruise_config_truthy cfg" by (simp add: get_cruise_config_Inr)
  from sp have ne: "ls \<noteq> []" by auto
  show ?thesis
    using g t ls ne sp cs k
    by (auto simp: set_logger_config_def logger_spec_truthy_def split: option.split)
qed

text \<open>An instance: \<^verbatim>\<open>underway\<close> is not a configuration of \<^verbatim>\<open>knud\<close>.\<close>

theorem set_logger_config_rejects_invalid_witness:
  "logger_valid_configs sample_store ''NBP1700'' ''knud'' = Some [''off'', ''net''] \<and>
   ''underway'' \<notin> set [''off'', ''net''] \<and>
   set_logger_config sample_store ''NBP1700'' ''knud'' ''underway'' =
     (Some (ValueError ''Config %s not valid for logger %s in cruise %s''
              [''underway'', ''knud'', ''NBP1700'']), sample_store) \<and>
   current_config (snd (set_logger_config sample_store ''NBP1700'' ''knud'' ''underway''))
     ''NBP1700'' ''knud'' = Some ''off''"
proof -
  have v: "logger_valid_configs sample_store ''NBP1700'' ''knud'' = Some [''off'', ''net'']"
    by (simp add: sample_store_eq logger_valid_configs_def get_cruise_config_def
          cruise_config_truthy_def NBP1700_def)
  have k: "''underway'' \<notin> set [''off'', ''net'']" by simp
  have c: "current_config sample_store ''NBP1700'' ''knud'' = Some ''off''"
    by (simp add: sample_store_eq current_config_def sample_heap_def)
  from set_logger_config_rejects_invalid [OF v k]
  have "set_logger_config sample_store ''NBP1700'' ''knud'' ''underway'' =
     (Some (ValueError ''Config %s not valid for logger %s in cruise %s''
              [''underway'', ''knud'', ''NBP1700'']), sample_store)"
    by auto
  with v k c show ?thesis by simp
qed

text \<open>
  \<^bold>\<open>C5.\<close> The claim: for a loaded cruise \<open>c\<close> and a logger defined in it,
  \<^verbatim>\<open>get_logger(c, logger_id)\<close> returns that logger's specification.

  For the sample cruise and its logger \<^verbatim>\<open>knud\<close> the call raises \<^verbatim>\<open>NameError\<close> instead.
\<close>

theorem get_logger_raises_name_error:
  "map_of (cruise_configs sample_store) ''NBP1700'' = Some NBP1700 \<and>
   loggers NBP1700 =
     Some [(''knud'', \<lparr>host = Some ''knud.pi'', valid_configs = Some [''off'', ''net'']\<rparr>),
           (''gyr1'', \<lparr>host = None, valid_configs = Some [''off'', ''net'']\<rparr>)] \<and>
   get_logger sample_store ''NBP1700'' ''knud'' = Inl (NameError ''logger_id'')"
  by (simp add: sample_store_eq get_logger_def get_loggers_def get_cruise_config_def
        cruise_config_truthy_def NBP1700_def)

text \<open>
  \<^bold>\<open>C6.\<close> For a cruise definition \<open>D\<close> that carries an id \<open>i\<close> without the separator and
  whose default mode, if any, is one of its modes: \<^verbatim>\<open>load_cruise(D)\<close> returns normally;
  afterwards \<^verbatim>\<open>get_cruise_config(i)\<close> returns \<open>D\<close> and \<^verbatim>\<open>get_cruises()\<close> contains \<open>i\<close>; the
  table of definitions is the old one with the entry of \<open>i\<close> set to \<open>D\<close> (a definition
  stored under \<open>i\<close> before is replaced, every other entry is kept); and no dict allocated
  before the call is written to.
\<close>

theorem load_cruise_installs_definition:
  assumes i: "definition_id D = Some i"
    and sep: "ID_SEPARATOR \<notin> set i"
    and dm: "default_mode_defined D"
  shows "fst (load_cruise s D) = None \<and>
     get_cruise_config (snd (load_cruise s D)) i = Inr D \<and>
     i \<in> set (get_cruises (snd (load_cruise s D))) \<and>
     cruise_configs (snd (load_cruise s D)) = AList.update i D (cruise_configs s) \<and>
     (\<forall>j. j \<noteq> i \<longrightarrow>
        map_of (cruise_configs (snd (load_cruise s D))) j = map_of (cruise_configs s) j) \<and>
     (\<forall>a < next_addr s. heap (snd (load_cruise s D)) a = heap s a)"
proof -
  let ?s1 = "s\<lparr>cruise_configs := AList.update i D (cruise_configs s)\<rparr>"
  from i obtain info where c: "cruise D = Some info" and m: "map_of info ''id'' = Some i"
    by (auto simp: definition_id_def split: option.splits)
  from c have t: "cruise_config_truthy D" by (simp add: cruise_config_truthy_def)
  have g1: "get_cruise_config ?s1 i = Inr D"
    using t by (simp add: get_cruise_config_Inr update_conv')
  have mem: "i \<in> set (map fst (AList.update i D (cruise_configs s)))"
    using dom_update [of i D "cruise_configs s"] by simp
  have other: "\<forall>j. j \<noteq> i \<longrightarrow> map_of (AList.update i D (cruise_configs s)) j = map_of (cruise_configs s) j"
    by (simp add: update_conv')
  show ?thesis
  proof (cases "default_mode D")
    case None
    then have "load_cruise s D = (None, ?s1)"
      using load_cruise_unfold [OF c m sep] by simp
    with g1 mem other show ?thesis by (simp add: get_cruises_def)
  next
    case (Some dmode)
    with dm obtain ms a where ms: "modes D = Some ms" and a: "map_of ms dmode = Some a"
      by (auto simp: default_mode_defined_def split: option.splits)
    from g1 ms a have mm: "mode_mapping ?s1 i dmode = Some a"
      by (auto simp: mode_mapping_Some)
    have "load_cruise s D = set_mode ?s1 i dmode"
      using load_cruise_unfold [OF c m sep] Some by simp
    with set_mode_Some [OF mm] t mem other show ?thesis
      by (simp add: get_cruises_def get_cruise_config_Inr update_conv')
  qed
qed

text \<open>An instance: over the loaded sample cruise, a definition with the same id and no
  loggers is loaded, and replaces it.\<close>

theorem load_cruise_installs_definition_witness:
  "definition_id (NBP1700\<lparr>loggers := None\<rparr>) = Some ''NBP1700'' \<and>
   ID_SEPARATOR \<notin> set ''NBP1700'' \<and>
   default_mode_defined (NBP1700\<lparr>loggers := None\<rparr>) \<and>
   get_cruise_config sample_store ''NBP1700'' = Inr NBP1700 \<and>
   fst (load_cruise sample_store (NBP1700\<lparr>loggers := None\<rparr>)) = None \<and>
   get_cruise_config (snd (load_cruise sample_store (NBP1700\<lparr>loggers := None\<rparr>))) ''NBP1700'' =
     Inr (NBP1700\<lparr>loggers := None\<rparr>) \<and>
   get_cruises (snd (load_cruise sample_store (NBP1700\<lparr>loggers := None\<rparr>))) = [''NBP1700'']"
proof -
  let ?D = "NBP1700\<lparr>loggers := None\<rparr>"
  have i: "definition_id ?D = Some ''NBP1700''"
    by (simp add: definition_id_def NBP1700_def)
  have sep: "ID_SEPARATOR \<notin> set ''NBP1700''"
    by (simp add: ID_SEPARATOR_def)
  have dm: "default_mode_defined ?D"
    by (simp add: default_mode_defined_def NBP1700_def)
  have before: "get_cruise_config sample_store ''NBP1700'' = Inr NBP1700"
    by (simp add: sample_store_eq get_cruise_config_def cruise_config_truthy_def NBP1700_def)
  from load_cruise_installs_definition [OF i sep dm, of sample_store]
  have "fst (load_cruise sample_store ?D) = None \<and>
     get_cruise_config (snd (load_cruise sample_store ?D)) ''NBP1700'' = Inr ?D \<and>
     cruise_configs (snd (load_cruise sample_store ?D)) =
       AList.update ''NBP1700'' ?D (cruise_configs sample_store)"
    by blast
  then have "fst (load_cruise sample_store ?D) = None \<and>
     get_cruise_config (snd (load_cruise sample_store ?D)) ''NBP1700'' = Inr ?D \<and>
     get_cruises (snd (load_cruise sample_store ?D)) = [''NBP1700'']"
    by (simp add: get_cruises_def sample_store_eq)
  with i sep dm before show ?thesis by blast
qed

text \<open>
  \<^bold>\<open>C7.\<close> The claim: for a definition whose id contains \<^verbatim>\<open>:\<close>, \<^verbatim>\<open>load_cruise\<close> raises a
  validation error (a \<^verbatim>\<open>ValueError\<close> in this code) before any mutation.

  For the sample definition under the id \<^verbatim>\<open>NBP:1700\<close> the state is indeed untouched, but
  the exception raised is a \<^verbatim>\<open>TypeError\<close> from the formatting of the message, not the
  \<^verbatim>\<open>ValueError\<close> that the statement constructs.
\<close>

theorem load_cruise_separator_raises_type_error:
  "definition_id separator_cruise = Some ''NBP:1700'' \<and>
   load_cruise (init sample_heap 2) separator_cruise =
     (Some (TypeError ''not enough arguments for format string''), init sample_heap 2)"
  by (simp add: definition_id_def separator_cruise_def NBP1700_def load_cruise_def
        ID_SEPARATOR_def)

text \<open>
  \<^bold>\<open>C8\<close>, as claimed, says that \<^verbatim>\<open>delete_cruise(c)\<close> for an unknown \<open>c\<close> leaves all state
  unchanged. It does not: a callback registered for a cruise \<^verbatim>\<open>X\<close> that was never loaded
  is dropped by \<^verbatim>\<open>delete_cruise('X')\<close>.
\<close>

theorem delete_unknown_cruise_drops_observers:
  "''X'' \<notin> set (get_cruises lone_observer_store) \<and>
   callbacks lone_observer_store = [(Some ''X'', [(''cb'', [])])] \<and>
   fst (delete_cruise lone_observer_store ''X'') = None \<and>
   callbacks (snd (delete_cruise lone_observer_store ''X'')) = [] \<and>
   callbacks (snd (delete_cruise lone_observer_store ''X'')) \<noteq> callbacks lone_observer_store"
  by (simp add: lone_observer_store_def on_update_def init_def delete_cruise_def get_cruises_def)

text \<open>
  \<^bold>\<open>C8\<close>, amended. For every state and every cruise id \<open>c\<close>, \<^verbatim>\<open>delete_cruise(c)\<close> returns
  normally. Afterwards \<open>c\<close> is not in \<^verbatim>\<open>get_cruises()\<close> and has no current mode, no live
  table and no callbacks registered under it; each of the four tables is the old one with
  the entry of \<open>c\<close> deleted, so the entries of other cruises and the wildcard callbacks are
  kept, whether or not \<open>c\<close> was loaded. An error is logged exactly when \<open>c\<close> was not
  loaded. When \<open>c\<close> has no entry in any of the four tables, and in particular when the
  call is repeated, nothing but the log changes.
\<close>

theorem delete_cruise_clears_derived_state:
  "fst (delete_cruise s c) = None \<and>
   c \<notin> set (get_cruises (snd (delete_cruise s c))) \<and>
   get_mode (snd (delete_cruise s c)) c = None \<and>
   map_of (logger_config (snd (delete_cruise s c))) c = None \<and>
   map_of (callbacks (snd (delete_cruise s c))) (Some c) = None \<and>
   cruise_configs (snd (delete_cruise s c)) = AList.delete c (cruise_configs s) \<and>
   mode (snd (delete_cruise s c)) = AList.delete c (mode s) \<and>
   logger_config (snd (delete_cruise s c)) = AList.delete c (logger_config s) \<and>
   callbacks (snd (delete_cruise s c)) = AList.delete (Some c) (callbacks s) \<and>
   status (snd (delete_cruise s c)) = status s \<and>
   heap (snd (delete_cruise s c)) = heap s \<and>
   logged (snd (delete_cruise s c)) =
     logged s @ (if c \<in> set (get_cruises s) then []
                 else [LogRecord ''ERROR'' ''Trying to delete undefined cruise %s'' [c]]) \<and>
   (c \<notin> set (get_cruises s) \<and> get_mode s c = None \<and> map_of (logger_config s) c = None \<and>
    map_of (callbacks s) (Some c) = None \<longrightarrow>
      snd (delete_cruise s c) =
        s\<lparr>logged := logged s @
             [LogRecord ''ERROR'' ''Trying to delete undefined cruise %s'' [c]]\<rparr>) \<and>
   snd (delete_cruise (snd (delete_cruise s c)) c) =
     (snd (delete_cruise s c))\<lparr>logged := logged (snd (delete_cruise s c)) @
        [LogRecord ''ERROR'' ''Trying to delete undefined cruise %s'' [c]]\<rparr>"
proof -
  have eqs: "fst (delete_cruise s c) = None \<and>
     cruise_configs (snd (delete_cruise s c)) = AList.delete c (cruise_configs s) \<and>
     mode (snd (delete_cruise s c)) = AList.delete c (mode s) \<and>
     logger_config (snd (delete_cruise s c)) = AList.delete c (logger_config s) \<and>
     callbacks (snd (delete_cruise s c)) = AList.delete (Some c) (callbacks s) \<and>
     status (snd (delete_cruise s c)) = status s \<and>
     heap (snd (delete_cruise s c)) = heap s \<and>
     logged (snd (delete_cruise s c)) =
       logged s @ (if c \<in> set (get_cruises s) then []
                   else [LogRecord ''ERROR'' ''Trying to delete undefined cruise %s'' [c]])"
    by (simp add: delete_cruise_def Let_def get_cruises_def)
  have gone: "c \<notin> set (get_cruises (snd (delete_cruise s c))) \<and>
     get_mode (snd (delete_cruise s c)) c = None \<and>
     map_of (logger_config (snd (delete_cruise s c))) c = None \<and>
     map_of (callbacks (snd (delete_cruise s c))) (Some c) = None"
    using eqs by (simp add: get_cruises_def get_mode_def delete_notin_dom map_of_eq_None_iff
          delete_conv')
  have absent: "delete_cruise s c =
      (None, s\<lparr>logged := logged s @
             [LogRecord ''ERROR'' ''Trying to delete undefined cruise %s'' [c]]\<rparr>)"
    if "c \<notin> set (get_cruises s)" "get_mode s c = None" "map_of (logger_config s) c = None"
      "map_of (callbacks s) (Some c) = None" for s
    using that
    by (simp add: delete_cruise_def Let_def get_cruises_def get_mode_def map_of_eq_None_iff)
  have again: "snd (delete_cruise (snd (delete_cruise s c)) c) =
     (snd (delete_cruise s c))\<lparr>logged := logged (snd (delete_cruise s c)) @
        [LogRecord ''ERROR'' ''Trying to delete undefined cruise %s'' [c]]\<rparr>"
    using absent [of "snd (delete_cruise s c)"] gone by simp
  from eqs gone absent [of s] again show ?thesis by simp
qed

text \<open>Instances: the loaded sample cruise is deleted; and a delete on a fresh object only
  logs.\<close>

theorem delete_cruise_clears_derived_state_witness:
  "get_cruises sample_store = [''NBP1700''] \<and>
   get_mode sample_store ''NBP1700'' = Some ''off'' \<and>
   fst (delete_cruise sample_store ''NBP1700'') = None \<and>
   get_cruises (snd (delete_cruise sample_store ''NBP1700'')) = [] \<and>
   get_mode (snd (delete_cruise sample_store ''NBP1700'')) ''NBP1700'' = None \<and>
   logger_config (snd (delete_cruise sample_store ''NBP1700'')) = [] \<and>
   ''X'' \<notin> set (get_cruises (init sample_heap 2)) \<and>
   snd (delete_cruise (init sample_heap 2) ''X'') =
     (init sample_heap 2)\<lparr>logged :=
        [LogRecord ''ERROR'' ''Trying to delete undefined cruise %s'' [''X'']]\<rparr>"
proof -
  have a: "get_cruises sample_store = [''NBP1700''] \<and>
           get_mode sample_store ''NBP1700'' = Some ''off''"
    by (simp add: sample_store_eq get_cruises_def get_mode_def)
  have b: "''X'' \<notin> set (get_cruises (init sample_heap 2)) \<and>
     get_mode (init sample_heap 2) ''X'' = None \<and>
     map_of (logger_config (init sample_heap 2)) ''X'' = None \<and>
     map_of (callbacks (init sample_heap 2)) (Some ''X'') = None \<and>
     logged (init sample_heap 2) = []"
    by (simp add: init_def get_cruises_def get_mode_def)
  from delete_cruise_clears_derived_state [of sample_store "''NBP1700''"]
  have 1: "fst (delete_cruise sample_store ''NBP1700'') = None \<and>
     get_cruises (snd (delete_cruise sample_store ''NBP1700'')) = [] \<and>
     get_mode (snd (delete_cruise sample_store ''NBP1700'')) ''NBP1700'' = None \<and>
     logger_config (snd (delete_cruise sample_store ''NBP1700'')) = []"
    by (simp add: get_cruises_def sample_store_eq)
  from delete_cruise_clears_derived_state [of "init sample_heap 2" "''X''"] b
  have 2: "snd (delete_cruise (init sample_heap 2) ''X'') =
     (init sample_heap 2)\<lparr>logged :=
        [LogRecord ''ERROR'' ''Trying to delete undefined cruise %s'' [''X'']]\<rparr>"
    by simp
  from a b 1 2 show ?thesis by simp
qed

text \<open>
  \<^bold>\<open>C9.\<close> In a state that satisfies the object's invariant, for a loaded cruise \<open>c\<close>, a
  logger \<open>l\<close> of \<open>c\<close> and a name \<open>k\<close> among the valid configurations of \<open>l\<close>:
  \<^verbatim>\<open>set_logger_config(c, l, k)\<close> returns normally, the current configuration of \<open>l\<close> in
  \<open>c\<close> is then \<open>k\<close>, and the current configuration of every other logger, in \<open>c\<close> and in
  every other cruise, is what it was; the current modes, the stored definitions, the dicts
  of their modes, the callbacks and the status log are unchanged.
\<close>

theorem set_logger_config_frame:
  assumes ok: "store_ok s" and v: "logger_valid_configs s c l = Some cs" and k: "k \<in> set cs"
  shows "fst (set_logger_config s c l k) = None \<and>
     current_config (snd (set_logger_config s c l k)) c l = Some k \<and>
     (\<forall>c' l'. (c', l') \<noteq> (c, l) \<longrightarrow>
        current_config (snd (set_logger_config s c l k)) c' l' = current_config s c' l') \<and>
     mode (snd (set_logger_config s c l k)) = mode s \<and>
     cruise_configs (snd (set_logger_config s c l k)) = cruise_configs s \<and>
     (\<forall>a \<in> nominal_addrs s. heap (snd (set_logger_config s c l k)) a = heap s a) \<and>
     callbacks (snd (set_logger_config s c l k)) = callbacks s \<and>
     status (snd (set_logger_config s c l k)) = status s"
proof (cases "map_of (logger_config s) c")
  case None
  let ?n = "next_addr s"
  have eq: "set_logger_config s c l k =
     (None, s\<lparr>logger_config := AList.update c ?n (logger_config s),
               heap := (heap s)(?n := AList.update l k []),
               next_addr := Suc ?n\<rparr>)"
    using set_logger_config_valid [OF v k] None by simp
  have live: "a < ?n" if "map_of (logger_config s) c' = Some a" for c' a
    using ok map_of_snd_mem [OF that] by (auto simp: store_ok_def live_addrs_def)
  have nom: "\<forall>a \<in> nominal_addrs s. a \<noteq> ?n"
    using ok by (auto simp: store_ok_def)
  have other: "current_config (snd (set_logger_config s c l k)) c' l' = current_config s c' l'"
    if "(c', l') \<noteq> (c, l)" for c' l'
  proof (cases "c' = c")
    case True
    with that have "l' \<noteq> l" by simp
    with True None show ?thesis
      by (simp add: eq current_config_def update_conv')
  next
    case False
    then show ?thesis
      using live [of c'] by (auto simp: eq current_config_def update_conv' split: option.split)
  qed
  show ?thesis
    using other nom by (simp add: eq current_config_def update_conv')
next
  case (Some a)
  have eq: "set_logger_config s c l k =
     (None, s\<lparr>heap := (heap s)(a := AList.update l k (heap s a))\<rparr>)"
    using set_logger_config_valid [OF v k] Some by simp
  have d: "distinct (map snd (logger_config s))"
    using ok by (simp add: store_ok_def)
  have "a \<in> live_addrs s"
    using map_of_snd_mem [OF Some] by (simp add: live_addrs_def)
  then have nom: "\<forall>b \<in> nominal_addrs s. b \<noteq> a"
    using ok by (auto simp: store_ok_def)
  have other: "current_config (snd (set_logger_config s c l k)) c' l' = current_config s c' l'"
    if "(c', l') \<noteq> (c, l)" for c' l'
  proof (cases "c' = c")
    case True
    with that have "l' \<noteq> l" by simp
    with True Some show ?thesis
      by (simp add: eq current_config_def update_conv')
  next
    case False
    have "b \<noteq> a" if "map_of (logger_config s) c' = Some b" for b
      using distinct_snd_keys [OF d map_of_SomeD [OF Some], of c'] map_of_SomeD [OF that] False
      by auto
    then show ?thesis
      by (auto simp: eq current_config_def split: option.split)
  qed
  show ?thesis
    using other nom Some by (simp add: eq current_config_def update_conv')
qed

text \<open>An instance: in mode \<^verbatim>\<open>port\<close>, \<^verbatim>\<open>knud\<close> is set to \<^verbatim>\<open>net\<close>.\<close>

theorem set_logger_config_frame_witness:
  "store_ok port_store \<and>
   logger_valid_configs port_store ''NBP1700'' ''knud'' = Some [''off'', ''net''] \<and>
   ''net'' \<in> set [''off'', ''net''] \<and>
   fst (set_logger_config port_store ''NBP1700'' ''knud'' ''net'') = None \<and>
   current_config override_store ''NBP1700'' ''knud'' = Some ''net'' \<and>
   current_config override_store ''NBP1700'' ''gyr1'' = Some ''net'' \<and>
   current_config port_store ''NBP1700'' ''gyr1'' = Some ''net'' \<and>
   mode override_store = [(''NBP1700'', ''port'')] \<and>
   cruise_configs override_store = cruise_configs port_store \<and>
   heap override_store 1 = heap port_store 1"
proof -
  have k: "''net'' \<in> set [''off'', ''net'']" by simp
  have one: "1 \<in> nominal_addrs port_store"
    by (simp add: port_store_eq nominal_addrs_def mode_addrs_def NBP1700_def)
  have g: "current_config port_store ''NBP1700'' ''gyr1'' = Some ''net''"
    by (simp add: port_store_eq current_config_def sample_heap_def)
  have m: "mode port_store = [(''NBP1700'', ''port'')]"
    by (simp add: port_store_eq)
  from set_logger_config_frame [OF store_ok_port_store port_store_valid_configs k]
  have "fst (set_logger_config port_store ''NBP1700'' ''knud'' ''net'') = None \<and>
     current_config override_store ''NBP1700'' ''knud'' = Some ''net'' \<and>
     current_config override_store ''NBP1700'' ''gyr1'' = current_config port_store ''NBP1700'' ''gyr1'' \<and>
     mode override_store = mode port_store \<and>
     cruise_configs override_store = cruise_configs port_store \<and>
     heap override_store 1 = heap port_store 1"
    using one unfolding override_store_def [symmetric] by auto
  with store_ok_port_store port_store_valid_configs k g m show ?thesis by simp
qed

text \<open>
  \<^bold>\<open>C10.\<close> In a state that satisfies the object's invariant, after any sequence of
  \<^verbatim>\<open>set_mode\<close> and \<^verbatim>\<open>set_logger_config\<close> calls (failed ones included) the table of stored
  definitions is the same, every dict that a mode of a stored definition maps to has the
  contents it had, no live table is one of these dicts, and \<^verbatim>\<open>get_configs(c, mode=m)\<close>
  returns the same dict as before, with the same contents.
\<close>

theorem stored_definition_never_mutated:
  assumes ok: "store_ok s"
  shows "cruise_configs (apply_mutations s xs) = cruise_configs s \<and>
     (\<forall>a \<in> nominal_addrs s. heap (apply_mutations s xs) a = heap s a) \<and>
     live_addrs (apply_mutations s xs) \<inter> nominal_addrs s = {} \<and>
     (\<forall>c m a. c \<noteq> [] \<and> m \<noteq> [] \<and> get_configs s c m = Inr a \<longrightarrow>
        get_configs (apply_mutations s xs) c m = Inr a \<and>
        heap (apply_mutations s xs) a = heap s a)"
proof -
  let ?s' = "apply_mutations s xs"
  from apply_mutations_keeps_definitions [OF ok, of xs]
  have ok': "store_ok ?s'" and cc: "cruise_configs ?s' = cruise_configs s"
    and h: "\<forall>a \<in> nominal_addrs s. heap ?s' a = heap s a"
    by simp_all
  have n: "nominal_addrs ?s' = nominal_addrs s"
    using cc by (rule nominal_addrs_cong)
  from ok' n have disj: "live_addrs ?s' \<inter> nominal_addrs s = {}"
    by (simp add: store_ok_def)
  have g: "get_configs ?s' c m = Inr a \<and> heap ?s' a = heap s a"
    if "get_configs s c m = Inr a" for c m a
  proof -
    from that have "a \<in> nominal_addrs s"
      by (intro mode_mapping_nominal get_configs_Inr)
    with h that show ?thesis by (simp add: get_configs_cong [OF cc])
  qed
  from cc h disj g show ?thesis by blast
qed

text \<open>An instance: the sample cruise is switched to \<^verbatim>\<open>port\<close>, \<^verbatim>\<open>knud\<close> is overridden, and
  an invalid assignment is attempted.\<close>

theorem stored_definition_never_mutated_witness:
  "store_ok sample_store \<and>
   get_configs sample_store ''NBP1700'' ''port'' = Inr 1 \<and>
   heap sample_store 1 = [(''knud'', ''off''), (''gyr1'', ''net'')] \<and>
   cruise_configs (apply_mutations sample_store
      [SetMode ''NBP1700'' ''port'', SetLoggerConfig ''NBP1700'' ''knud'' ''net'',
       SetLoggerConfig ''NBP1700'' ''gyr1'' ''underway'']) = [(''NBP1700'', NBP1700)] \<and>
   get_configs (apply_mutations sample_store
      [SetMode ''NBP1700'' ''port'', SetLoggerConfig ''NBP1700'' ''knud'' ''net'',
       SetLoggerConfig ''NBP1700'' ''gyr1'' ''underway'']) ''NBP1700'' ''port'' = Inr 1 \<and>
   heap (apply_mutations sample_store
      [SetMode ''NBP1700'' ''port'', SetLoggerConfig ''NBP1700'' ''knud'' ''net'',
       SetLoggerConfig ''NBP1700'' ''gyr1'' ''underway'']) 1 =
     [(''knud'', ''off''), (''gyr1'', ''net'')]"
proof -
  let ?xs = "[SetMode ''NBP1700'' ''port'', SetLoggerConfig ''NBP1700'' ''knud'' ''net'',
       SetLoggerConfig ''NBP1700'' ''gyr1'' ''underway'']"
  have g: "get_configs sample_store ''NBP1700'' ''port'' = Inr 1"
    by (simp add: sample_store_eq get_configs_def get_cruise_config_def cruise_config_truthy_def
          NBP1700_def)
  have h: "heap sample_store 1 = [(''knud'', ''off''), (''gyr1'', ''net'')]"
    by (simp add: sample_store_eq sample_heap_def)
  have c: "cruise_configs sample_store = [(''NBP1700'', NBP1700)]"
    by (simp add: sample_store_eq)
  have ne: "''NBP1700'' \<noteq> [] \<and> ''port'' \<noteq> []" by simp
  from stored_definition_never_mutated [OF store_ok_sample_store, of ?xs] g ne
  have "cruise_configs (apply_mutations sample_store ?xs) = cruise_configs sample_store \<and>
     get_configs (apply_mutations sample_store ?xs) ''NBP1700'' ''port'' = Inr 1 \<and>
     heap (apply_mutations sample_store ?xs) 1 = heap sample_store 1"
    by blast
  with store_ok_sample_store g h c show ?thesis by simp
qed

end
